theory Spec2Isabelle
  imports Main
begin

section \<open>The assistant bot of \<^verbatim>\<open>home_work_3.py\<close>: Python values\<close>

text \<open>
  A Python \<^verbatim>\<open>str\<close> is modelled as a HOL \<^typ>\<open>string\<close> whose characters are read as
  the Unicode code points U+0000 to U+00FF (so \<^verbatim>\<open>len\<close> is \<^const>\<open>length\<close>). Strings
  with code points above U+00FF are outside the model. The character classes below are
  those of CPython's \<^verbatim>\<open>str\<close> methods restricted to that range.
\<close>

definition ord :: "char \<Rightarrow> nat" where
  "ord c = of_char c"

text \<open>\<^verbatim>\<open>str.isdigit\<close> on one character: the decimal digits and the characters of
  Unicode numeric type Digit, which below U+0100 are the superscripts two, three and one
  (U+00B2, U+00B3, U+00B9). Above U+00FF, outside the strings of this model,
  \<^verbatim>\<open>str.isdigit\<close> holds for the digits of other scripts as well.\<close>

definition isdigit_char :: "char \<Rightarrow> bool" where
  "isdigit_char c = ((48 \<le> ord c \<and> ord c \<le> 57) \<or> ord c = 178 \<or> ord c = 179 \<or> ord c = 185)"

text \<open>\<^verbatim>\<open>s.isdigit()\<close>: all characters are digits and there is at least one.\<close>

definition isdigit :: "string \<Rightarrow> bool" where
  "isdigit s = (s \<noteq> [] \<and> list_all isdigit_char s)"

text \<open>The regular expression class \<^verbatim>\<open>\d\<close> (Unicode category Nd): below U+0100 only
  \<^verbatim>\<open>0\<close> to \<^verbatim>\<open>9\<close>.\<close>

definition isdecimal_char :: "char \<Rightarrow> bool" where
  "isdecimal_char c = (48 \<le> ord c \<and> ord c \<le> 57)"

text \<open>Whitespace as \<^verbatim>\<open>str.split()\<close> and \<^verbatim>\<open>str.strip()\<close> see it: U+0009 to U+000D,
  U+001C to U+0020, U+0085 and U+00A0.\<close>

definition isspace :: "char \<Rightarrow> bool" where
  "isspace c = ((9 \<le> ord c \<and> ord c \<le> 13) \<or> (28 \<le> ord c \<and> ord c \<le> 32) \<or> ord c = 133 \<or> ord c = 160)"

text \<open>\<^verbatim>\<open>str.lower()\<close> on one character: \<^verbatim>\<open>A\<close> to \<^verbatim>\<open>Z\<close> and the Latin-1 capitals
  U+00C0 to U+00DE (the multiplication sign U+00D7 apart) move up by 32.\<close>

definition lower_char :: "char \<Rightarrow> char" where
  "lower_char c =
     (if (65 \<le> ord c \<and> ord c \<le> 90) \<or> (192 \<le> ord c \<and> ord c \<le> 222 \<and> ord c \<noteq> 215)
      then char_of (ord c + 32) else c)"

definition lower :: "string \<Rightarrow> string" where
  "lower s = map lower_char s"

definition strip :: "string \<Rightarrow> string" where
  "strip s = rev (dropWhile isspace (rev (dropWhile isspace s)))"

text \<open>\<^verbatim>\<open>s.split()\<close>: the maximal runs of non-whitespace characters, in order. The first
  argument is the word being read.\<close>

fun split_from :: "string \<Rightarrow> string \<Rightarrow> string list" where
  "split_from w [] = (if w = [] then [] else [w])"
| "split_from w (c # cs) =
     (if isspace c then (if w = [] then split_from [] cs else w # split_from [] cs)
      else split_from (w @ [c]) cs)"

definition split :: "string \<Rightarrow> string list" where
  "split s = split_from [] s"

text \<open>\<^verbatim>\<open>sep.join(xs)\<close> on a list of strings.\<close>

fun join :: "string \<Rightarrow> string list \<Rightarrow> string" where
  "join sep [] = []"
| "join sep [x] = x"
| "join sep (x # y # ys) = x @ sep @ join sep (y # ys)"

text \<open>Decimal rendering of integers, as \<^verbatim>\<open>str(n)\<close> and \<^verbatim>\<open>%d\<close> give it.\<close>

function str_of_nat :: "nat \<Rightarrow> string" where
  "str_of_nat n =
     (if n < 10 then [char_of (48 + n)] else str_of_nat (n div 10) @ [char_of (48 + n mod 10)])"
  by pat_completeness auto
termination
  by (relation "measure id") auto

declare str_of_nat.simps [simp del]

definition str_of_int :: "int \<Rightarrow> string" where
  "str_of_int i = (if i < 0 then CHR ''-'' # str_of_nat (nat (- i)) else str_of_nat (nat i))"

text \<open>\<^verbatim>\<open>int(s)\<close> on a string of decimal digits (the only strings it is applied to).\<close>

definition int_of_digits :: "string \<Rightarrow> int" where
  "int_of_digits s = foldl (\<lambda>acc c. 10 * acc + (int (ord c) - 48)) 0 s"

subsection \<open>repr of strings and lists\<close>

definition hexdigit :: "nat \<Rightarrow> char" where
  "hexdigit n = ''0123456789abcdef'' ! (n mod 16)"

text \<open>Printable characters in the sense of \<^verbatim>\<open>str.isprintable\<close>, for code points from U+0080
  on: the C1 controls, the no-break space and the soft hyphen are not.\<close>

definition isprintable_high :: "char \<Rightarrow> bool" where
  "isprintable_high c = (161 \<le> ord c \<and> ord c \<noteq> 173)"

definition repr_char :: "char \<Rightarrow> char \<Rightarrow> string" where
  "repr_char quote c =
     (if c = quote \<or> c = CHR 0x5C then [CHR 0x5C, c]
      else if ord c = 9 then [CHR 0x5C, CHR ''t'']
      else if ord c = 10 then [CHR 0x5C, CHR ''n'']
      else if ord c = 13 then [CHR 0x5C, CHR ''r'']
      else if ord c < 32 \<or> ord c = 127 then [CHR 0x5C, CHR ''x'', hexdigit (ord c div 16), hexdigit (ord c)]
      else if ord c < 127 then [c]
      else if isprintable_high c then [c]
      else [CHR 0x5C, CHR ''x'', hexdigit (ord c div 16), hexdigit (ord c)])"

text \<open>\<^verbatim>\<open>repr(s)\<close>: single quotes, unless the string holds a single quote and no double
  quote.\<close>

definition repr_str :: "string \<Rightarrow> string" where
  "repr_str s =
     (let quote = (if CHR 0x27 \<in> set s \<and> CHR 0x22 \<notin> set s then CHR 0x22 else CHR 0x27)
      in [quote] @ concat (map (repr_char quote) s) @ [quote])"

definition repr_list :: "string list \<Rightarrow> string" where
  "repr_list xs = ''['' @ join '', '' (map repr_str xs) @ '']''"

subsection \<open>Values and exceptions\<close>

text \<open>
  The handlers are annotated \<^verbatim>\<open>args: List[str]\<close>, but \<^verbatim>\<open>main\<close> hands them a list whose
  single element is itself the list of tokens. A handler argument is therefore a string
  or a list of strings.
\<close>

datatype pyval = Str string | StrList "string list"

text \<open>\<^verbatim>\<open>str(v)\<close>, which is also what an f-string field prints.\<close>

fun py_str :: "pyval \<Rightarrow> string" where
  "py_str (Str s) = s"
| "py_str (StrList xs) = repr_list xs"

text \<open>The exceptions the program can raise. \<^verbatim>\<open>ValueError\<close> and \<^verbatim>\<open>TypeError\<close> carry the
  message \<^verbatim>\<open>str(e)\<close>; the messages of interpreter and library errors are CPython's
  (3.8 to 3.13).\<close>

datatype error =
    ValueError string
  | KeyError
  | IndexError
  | TypeError string
  | OverflowError string

text \<open>\<^verbatim>\<open>a, b = xs\<close>\<close>

definition unpack2 :: "'a list \<Rightarrow> error + 'a \<times> 'a" where
  "unpack2 xs =
     (case xs of
        [a, b] \<Rightarrow> Inr (a, b)
      | _ \<Rightarrow>
        if length xs < 2
        then Inl (ValueError (''not enough values to unpack (expected 2, got '' @ str_of_nat (length xs) @ '')''))
        else Inl (ValueError ''too many values to unpack (expected 2)''))"

text \<open>\<^verbatim>\<open>a, *rest = xs\<close>\<close>

definition unpack_star :: "'a list \<Rightarrow> error + 'a \<times> 'a list" where
  "unpack_star xs =
     (case xs of
        [] \<Rightarrow> Inl (ValueError ''not enough values to unpack (expected at least 1, got 0)'')
      | a # rest \<Rightarrow> Inr (a, rest))"

text \<open>\<^verbatim>\<open>xs[0]\<close>\<close>

definition item0 :: "'a list \<Rightarrow> error + 'a" where
  "item0 xs = (case xs of x # _ \<Rightarrow> Inr x | [] \<Rightarrow> Inl IndexError)"

section \<open>Fields\<close>

text \<open>\<^verbatim>\<open>Phone.__init__\<close>: the value kept by the field, or the \<^verbatim>\<open>ValueError\<close>.\<close>

definition Phone :: "pyval \<Rightarrow> error + pyval" where
  "Phone v =
     (case v of
        Str s \<Rightarrow>
          if \<not> isdigit s \<or> length s \<noteq> 10
          then Inl (ValueError ''Invalid phone number format. Must be a string of 10 digits.'')
          else Inr (Str s)
      | StrList _ \<Rightarrow> Inl (ValueError ''Invalid phone number format. Must be a string of 10 digits.''))"

text \<open>\<^verbatim>\<open>Birthday.__init__\<close> is given after the dates it parses.\<close>

section \<open>Calendar dates (\<^verbatim>\<open>datetime.date\<close>)\<close>

record date =
  year :: int
  month :: int
  day :: int

definition is_leap :: "int \<Rightarrow> bool" where
  "is_leap y = (y mod 4 = 0 \<and> (y mod 100 \<noteq> 0 \<or> y mod 400 = 0))"

definition days_in_month :: "int \<Rightarrow> int \<Rightarrow> int" where
  "days_in_month y m =
     (if m = 2 \<and> is_leap y then 29
      else [31, 28, 31, 30, 31, 30, 31, 31, 30, 31, 30, 31] ! nat (m - 1))"

definition days_before_year :: "int \<Rightarrow> int" where
  "days_before_year y = (y - 1) * 365 + (y - 1) div 4 - (y - 1) div 100 + (y - 1) div 400"

definition days_before_month :: "int \<Rightarrow> int \<Rightarrow> int" where
  "days_before_month y m =
     [0, 31, 59, 90, 120, 151, 181, 212, 243, 273, 304, 334] ! nat (m - 1)
       + (if m > 2 \<and> is_leap y then 1 else 0)"

text \<open>\<^verbatim>\<open>date.toordinal()\<close>: 1 is 1 January of year 1.\<close>

definition toordinal :: "date \<Rightarrow> int" where
  "toordinal d = days_before_year (year d) + days_before_month (year d) (month d) + day d"

definition MAXORDINAL :: int where
  "MAXORDINAL = 3652059"

text \<open>The constructor \<^verbatim>\<open>date(y, m, d)\<close> with its range checks, in CPython's order.\<close>

definition year_out_of_range :: "int \<Rightarrow> error" where
  "year_out_of_range y = ValueError (''year '' @ str_of_int y @ '' is out of range'')"

definition day_out_of_range :: error where
  "day_out_of_range = ValueError ''day is out of range for month''"

definition date_new :: "int \<Rightarrow> int \<Rightarrow> int \<Rightarrow> error + date" where
  "date_new y m d =
     (if y < 1 \<or> 9999 < y then Inl (year_out_of_range y)
      else if m < 1 \<or> 12 < m then Inl (ValueError ''month must be in 1..12'')
      else if d < 1 \<or> days_in_month y m < d then Inl day_out_of_range
      else Inr \<lparr>year = y, month = m, day = d\<rparr>)"

text \<open>The dates that exist: those the constructor returns.\<close>

definition is_date :: "date \<Rightarrow> bool" where
  "is_date d = (date_new (year d) (month d) (day d) = Inr d)"

text \<open>\<^verbatim>\<open>d.replace(year=y)\<close> builds a new date from the changed fields.\<close>

definition replace_year :: "date \<Rightarrow> int \<Rightarrow> error + date" where
  "replace_year d y = date_new y (month d) (day d)"

text \<open>\<^verbatim>\<open>a < b\<close> on dates compares year, month and day in this order.\<close>

definition date_less :: "date \<Rightarrow> date \<Rightarrow> bool" where
  "date_less a b =
     (year a < year b \<or> (year a = year b \<and> (month a < month b \<or> (month a = month b \<and> day a < day b))))"

text \<open>
  \<^verbatim>\<open>d + timedelta(days=n)\<close> is the date of ordinal \<^verbatim>\<open>d.toordinal() + n\<close>, or an
  \<^verbatim>\<open>OverflowError\<close> outside the supported range; \<^verbatim>\<open>timedelta\<close> itself refuses more
  than 999999999 days. The program only asks the sum for its weekday, and
  \<^verbatim>\<open>weekday()\<close> of a date is \<^verbatim>\<open>(toordinal() + 6) % 7\<close>, so the model keeps the sum as
  its ordinal.
\<close>

definition date_add_days :: "date \<Rightarrow> int \<Rightarrow> error + int" where
  "date_add_days d n =
     (if \<bar>n\<bar> > 999999999 then Inl (OverflowError (''days='' @ str_of_int n @ ''; must have magnitude <= 999999999''))
      else if 0 < toordinal d + n \<and> toordinal d + n \<le> MAXORDINAL then Inr (toordinal d + n)
      else Inl (OverflowError ''date value out of range''))"

definition weekday :: "int \<Rightarrow> int" where
  "weekday ordinal = (ordinal + 6) mod 7"

definition day_names :: "string list" where
  "day_names = [''Monday'', ''Tuesday'', ''Wednesday'', ''Thursday'', ''Friday'', ''Saturday'', ''Sunday'']"

text \<open>\<^verbatim>\<open>strftime("%A")\<close> in the C locale (the program never sets another).\<close>

definition strftime_A :: "int \<Rightarrow> string" where
  "strftime_A ordinal = day_names ! nat (weekday ordinal)"

subsection \<open>\<^verbatim>\<open>datetime.strptime(s, '%d.%m.%Y').date()\<close>\<close>

text \<open>
  The format compiles to the regular expression
  \<^verbatim>\<open>(3[0-1]|[1-2]\d|0[1-9]|[1-9]| [1-9])\.(1[0-2]|0[1-9]|[1-9])\.(\d\d\d\d)\<close>,
  matched at the start of the string; text after the match is an error. No alternative
  holds a dot, so the day is the text before the first dot and the month the text
  between the first two.
\<close>

definition split_at_dot :: "string \<Rightarrow> (string \<times> string) option" where
  "split_at_dot s =
     (case dropWhile (\<lambda>c. c \<noteq> CHR ''.'') s of
        [] \<Rightarrow> None
      | _ # rest \<Rightarrow> Some (takeWhile (\<lambda>c. c \<noteq> CHR ''.'') s, rest))"

definition nonzero_digit :: "char \<Rightarrow> bool" where
  "nonzero_digit c = (49 \<le> ord c \<and> ord c \<le> 57)"

definition day_token :: "string \<Rightarrow> bool" where
  "day_token t =
     (case t of
        [a] \<Rightarrow> nonzero_digit a
      | [a, b] \<Rightarrow>
          (a = CHR ''3'' \<and> (b = CHR ''0'' \<or> b = CHR ''1''))
          \<or> ((a = CHR ''1'' \<or> a = CHR ''2'') \<and> isdecimal_char b)
          \<or> (a = CHR ''0'' \<and> nonzero_digit b)
          \<or> (a = CHR '' '' \<and> nonzero_digit b)
      | _ \<Rightarrow> False)"

definition month_token :: "string \<Rightarrow> bool" where
  "month_token t =
     (case t of
        [a] \<Rightarrow> nonzero_digit a
      | [a, b] \<Rightarrow>
          (a = CHR ''1'' \<and> (b = CHR ''0'' \<or> b = CHR ''1'' \<or> b = CHR ''2''))
          \<or> (a = CHR ''0'' \<and> nonzero_digit b)
      | _ \<Rightarrow> False)"

definition no_match :: "string \<Rightarrow> error" where
  "no_match s = ValueError (''time data '' @ repr_str s @ '' does not match format '' @ repr_str ''%d.%m.%Y'')"

definition strptime :: "string \<Rightarrow> error + date" where
  "strptime s =
     (case split_at_dot s of
        None \<Rightarrow> Inl (no_match s)
      | Some (d, r1) \<Rightarrow>
          (case split_at_dot r1 of
             None \<Rightarrow> Inl (no_match s)
           | Some (m, r2) \<Rightarrow>
               if day_token d \<and> month_token m \<and> 4 \<le> length r2 \<and> list_all isdecimal_char (take 4 r2)
               then (if drop 4 r2 \<noteq> [] then Inl (ValueError (''unconverted data remains: '' @ drop 4 r2))
                     else date_new (int_of_digits r2) (int_of_digits m) (int_of_digits (strip d)))
               else Inl (no_match s)))"

text \<open>\<^verbatim>\<open>Birthday.__init__\<close>: every \<^verbatim>\<open>ValueError\<close> of the parse becomes the field's own;
  a value that is not a string makes \<^verbatim>\<open>strptime\<close> raise a \<^verbatim>\<open>TypeError\<close>, which passes
  through.\<close>

definition Birthday :: "pyval \<Rightarrow> error + string" where
  "Birthday v =
     (case v of
        Str s \<Rightarrow>
          (case strptime s of
             Inl _ \<Rightarrow> Inl (ValueError ''Invalid birthday format. Must be in the format DD.MM.YYYY.'')
           | Inr _ \<Rightarrow> Inr s)
      | StrList _ \<Rightarrow> Inl (TypeError ''strptime() argument 1 must be str, not list''))"

section \<open>Records and the address book\<close>

record Record =
  name :: pyval
  phones :: "pyval list"
  birthday :: "string option"

definition Record_init :: "pyval \<Rightarrow> Record" where
  "Record_init n = \<lparr>name = n, phones = [], birthday = None\<rparr>"

definition add_phone :: "Record \<Rightarrow> pyval \<Rightarrow> error + Record" where
  "add_phone r phone_number =
     (case Phone phone_number of
        Inl e \<Rightarrow> Inl e
      | Inr phone \<Rightarrow> Inr (r\<lparr>phones := phones r @ [phone]\<rparr>))"

definition remove_phone :: "Record \<Rightarrow> pyval \<Rightarrow> Record" where
  "remove_phone r phone_number = r\<lparr>phones := filter (\<lambda>phone. phone \<noteq> phone_number) (phones r)\<rparr>"

text \<open>\<^verbatim>\<open>edit_phone\<close> walks the whole list and overwrites every entry equal to the old
  number; the new number is stored as it is given.\<close>

definition edit_phone :: "Record \<Rightarrow> pyval \<Rightarrow> pyval \<Rightarrow> Record" where
  "edit_phone r old_phone_number new_phone_number =
     r\<lparr>phones := map (\<lambda>phone. if phone = old_phone_number then new_phone_number else phone) (phones r)\<rparr>"

definition add_birthday_to :: "Record \<Rightarrow> pyval \<Rightarrow> error + Record" where
  "add_birthday_to r b =
     (case Birthday b of
        Inl e \<Rightarrow> Inl e
      | Inr v \<Rightarrow> Inr (r\<lparr>birthday := Some v\<rparr>))"

text \<open>\<^verbatim>\<open>Record.__str__\<close>\<close>

definition Record_str :: "Record \<Rightarrow> string" where
  "Record_str r =
     ''Contact name: '' @ py_str (name r) @ '', phones: '' @ join ''; '' (map py_str (phones r))
       @ '', birthday: '' @ (case birthday r of None \<Rightarrow> ''None'' | Some b \<Rightarrow> b)"

text \<open>
  \<^verbatim>\<open>AddressBook.data\<close> is a dict: an association list in insertion order, in which
  storing under a key that is present keeps the key's place. Records are only reached
  through their key, so a record mutated in place is written back under it.
\<close>

type_synonym AddressBook = "(string \<times> Record) list"

fun dict_set :: "string \<Rightarrow> 'v \<Rightarrow> (string \<times> 'v) list \<Rightarrow> (string \<times> 'v) list" where
  "dict_set k v [] = [(k, v)]"
| "dict_set k v ((k', v') # rest) = (if k' = k then (k, v) # rest else (k', v') # dict_set k v rest)"

definition unhashable :: error where
  "unhashable = TypeError (''unhashable type: '' @ repr_str ''list'')"

text \<open>\<^verbatim>\<open>add_record\<close>: \<^verbatim>\<open>self.data[record.name.value] = record\<close>; a list cannot be a key.\<close>

definition add_record :: "Record \<Rightarrow> AddressBook \<Rightarrow> error + AddressBook" where
  "add_record r book =
     (case name r of
        Str k \<Rightarrow> Inr (dict_set k r book)
      | StrList _ \<Rightarrow> Inl unhashable)"

text \<open>\<^verbatim>\<open>find\<close>: \<^verbatim>\<open>self.data.get(name)\<close>, \<^verbatim>\<open>None\<close> for a missing key; hashing a list
  raises.\<close>

definition find :: "AddressBook \<Rightarrow> pyval \<Rightarrow> error + Record option" where
  "find book n =
     (case n of
        Str k \<Rightarrow> Inr (map_of book k)
      | StrList _ \<Rightarrow> Inl unhashable)"

definition delete :: "AddressBook \<Rightarrow> string \<Rightarrow> AddressBook" where
  "delete book k = filter (\<lambda>(k', r). k' \<noteq> k) book"

subsection \<open>\<^verbatim>\<open>get_birthdays_per_week\<close>\<close>

text \<open>\<^verbatim>\<open>birthdays_by_day[key].append(v)\<close> on a \<^verbatim>\<open>defaultdict(list)\<close>: a new key goes
  last.\<close>

fun dd_append :: "(string \<times> 'a list) list \<Rightarrow> string \<Rightarrow> 'a \<Rightarrow> (string \<times> 'a list) list" where
  "dd_append [] k v = [(k, [v])]"
| "dd_append ((k', vs) # rest) k v =
     (if k' = k then (k', vs @ [v]) # rest else (k', vs) # dd_append rest k v)"

text \<open>\<^verbatim>\<open>birthdays_by_day[key]\<close> read without inserting: the names under a key, none
  for a key that is absent.\<close>

definition dd_get :: "(string \<times> 'a list) list \<Rightarrow> string \<Rightarrow> 'a list" where
  "dd_get d k = (case map_of d k of None \<Rightarrow> [] | Some vs \<Rightarrow> vs)"

text \<open>Lines 119 to 122: the birthday moved to today's year, and to the next year when
  that day is before today.\<close>

definition occurrence :: "date \<Rightarrow> date \<Rightarrow> error + date" where
  "occurrence today birthday_date =
     (case replace_year birthday_date (year today) of
        Inl e \<Rightarrow> Inl e
      | Inr birthday_this_year \<Rightarrow>
          if date_less birthday_this_year today
          then replace_year birthday_this_year (year today + 1)
          else Inr birthday_this_year)"

text \<open>One turn of the loop for a record: the group and name it appends, if any.\<close>

definition birthday_entry :: "date \<Rightarrow> Record \<Rightarrow> error + (string \<times> pyval) option" where
  "birthday_entry today r =
     (case birthday r of
        None \<Rightarrow> Inr None
      | Some value \<Rightarrow>
          (case strptime value of
             Inl e \<Rightarrow> Inl e
           | Inr birthday_date \<Rightarrow>
               (case occurrence today birthday_date of
                  Inl e \<Rightarrow> Inl e
                | Inr birthday_this_year \<Rightarrow>
                    (let delta_days = toordinal birthday_this_year - toordinal today in
                     if delta_days < 7 then
                       (case date_add_days today delta_days of
                          Inl e \<Rightarrow> Inl e
                        | Inr d \<Rightarrow>
                            (let birthday_day = strftime_A d in
                             if birthday_day = ''Saturday'' \<or> birthday_day = ''Sunday''
                             then Inr (Some (''Monday'', name r))
                             else Inr (Some (birthday_day, name r))))
                     else Inr None))))"

fun birthdays_loop ::
  "date \<Rightarrow> Record list \<Rightarrow> (string \<times> pyval list) list \<Rightarrow> error + (string \<times> pyval list) list" where
  "birthdays_loop today [] birthdays_by_day = Inr birthdays_by_day"
| "birthdays_loop today (r # rs) birthdays_by_day =
     (case birthday_entry today r of
        Inl e \<Rightarrow> Inl e
      | Inr None \<Rightarrow> birthdays_loop today rs birthdays_by_day
      | Inr (Some (birthday_day, n)) \<Rightarrow> birthdays_loop today rs (dd_append birthdays_by_day birthday_day n))"

text \<open>\<^verbatim>\<open>datetime.today().date()\<close> is the parameter \<open>today\<close>.\<close>

definition get_birthdays_per_week :: "date \<Rightarrow> AddressBook \<Rightarrow> error + (string \<times> pyval list) list" where
  "get_birthdays_per_week today book = birthdays_loop today (map snd book) []"

section \<open>The command handlers\<close>

text \<open>\<^verbatim>\<open>parse_input\<close>\<close>

definition parse_input :: "string \<Rightarrow> error + string \<times> string list" where
  "parse_input user_input =
     (case unpack_star (split user_input) of
        Inl e \<Rightarrow> Inl e
      | Inr (cmd, args) \<Rightarrow> Inr (lower (strip cmd), args))"

text \<open>
  A handler returns what it returns or raises, and the address book as it leaves it.
  The decorator \<^verbatim>\<open>input_error\<close> turns three kinds of exception into a reply and lets
  every other one through.
\<close>

type_synonym outcome = "(error + string) \<times> AddressBook"

definition input_error :: "outcome \<Rightarrow> outcome" where
  "input_error res =
     (case fst res of
        Inl (ValueError e) \<Rightarrow> (Inr e, snd res)
      | Inl KeyError \<Rightarrow> (Inr ''Contact not found.'', snd res)
      | Inl IndexError \<Rightarrow> (Inr ''Not enough arguments provided.'', snd res)
      | _ \<Rightarrow> res)"

definition not_found :: "pyval \<Rightarrow> string" where
  "not_found n = ''Contact '' @ py_str n @ '' not found.''"

definition add_contact :: "pyval list \<Rightarrow> AddressBook \<Rightarrow> outcome" where
  "add_contact args book = input_error
     (case unpack2 args of
        Inl e \<Rightarrow> (Inl e, book)
      | Inr (n, phone) \<Rightarrow>
          (case add_phone (Record_init n) phone of
             Inl e \<Rightarrow> (Inl e, book)
           | Inr record \<Rightarrow>
               (case add_record record book of
                  Inl e \<Rightarrow> (Inl e, book)
                | Inr book' \<Rightarrow> (Inr ''Contact added.'', book'))))"

definition change_contact :: "pyval list \<Rightarrow> AddressBook \<Rightarrow> outcome" where
  "change_contact args book = input_error
     (case unpack2 args of
        Inl e \<Rightarrow> (Inl e, book)
      | Inr (n, new_phone) \<Rightarrow>
          (case find book n of
             Inl e \<Rightarrow> (Inl e, book)
           | Inr None \<Rightarrow> (Inr (not_found n), book)
           | Inr (Some record) \<Rightarrow>
               (case item0 (phones record) of
                  Inl e \<Rightarrow> (Inl e, book)
                | Inr old \<Rightarrow> (Inr ''Contact updated.'', dict_set (py_str n) (edit_phone record old new_phone) book))))"

definition show_phone :: "pyval list \<Rightarrow> AddressBook \<Rightarrow> outcome" where
  "show_phone args book = input_error
     (case item0 args of
        Inl e \<Rightarrow> (Inl e, book)
      | Inr n \<Rightarrow>
          (case find book n of
             Inl e \<Rightarrow> (Inl e, book)
           | Inr None \<Rightarrow> (Inr (not_found n), book)
           | Inr (Some record) \<Rightarrow>
               (case item0 (phones record) of
                  Inl e \<Rightarrow> (Inl e, book)
                | Inr phone \<Rightarrow> (Inr (py_str n @ [CHR 0x27] @ ''s phone number: '' @ py_str phone), book))))"

definition show_all :: "AddressBook \<Rightarrow> outcome" where
  "show_all book = input_error
     (if book \<noteq> []
      then (Inr (strip (''All contacts:'' @ [CHR 0x0A] @ concat (map (\<lambda>record. Record_str record @ [CHR 0x0A]) (map snd book)))), book)
      else (Inr ''No contacts found.'', book))"

definition add_birthday :: "pyval list \<Rightarrow> AddressBook \<Rightarrow> outcome" where
  "add_birthday args book = input_error
     (case unpack2 args of
        Inl e \<Rightarrow> (Inl e, book)
      | Inr (n, b) \<Rightarrow>
          (case find book n of
             Inl e \<Rightarrow> (Inl e, book)
           | Inr None \<Rightarrow> (Inr (not_found n), book)
           | Inr (Some record) \<Rightarrow>
               (case add_birthday_to record b of
                  Inl e \<Rightarrow> (Inl e, book)
                | Inr record' \<Rightarrow> (Inr ''Birthday added.'', dict_set (py_str n) record' book))))"

definition show_birthday :: "pyval list \<Rightarrow> AddressBook \<Rightarrow> outcome" where
  "show_birthday args book = input_error
     (case item0 args of
        Inl e \<Rightarrow> (Inl e, book)
      | Inr n \<Rightarrow>
          (case find book n of
             Inl e \<Rightarrow> (Inl e, book)
           | Inr None \<Rightarrow> (Inr (not_found n), book)
           | Inr (Some record) \<Rightarrow>
               (case birthday record of
                  Some b \<Rightarrow> (Inr (py_str n @ [CHR 0x27] @ ''s birthday: '' @ b), book)
                | None \<Rightarrow> (Inr (py_str n @ '' has no birthday specified.''), book))))"

text \<open>\<^verbatim>\<open>', '.join(names)\<close> raises a \<^verbatim>\<open>TypeError\<close> at the first item that is not a string.\<close>

fun join_names :: "nat \<Rightarrow> pyval list \<Rightarrow> error + string list" where
  "join_names i [] = Inr []"
| "join_names i (Str s # vs) = (case join_names (Suc i) vs of Inl e \<Rightarrow> Inl e | Inr ss \<Rightarrow> Inr (s # ss))"
| "join_names i (StrList _ # vs) =
     Inl (TypeError (''sequence item '' @ str_of_nat i @ '': expected str instance, list found''))"

fun birthday_lines :: "(string \<times> pyval list) list \<Rightarrow> string \<Rightarrow> error + string" where
  "birthday_lines [] result = Inr result"
| "birthday_lines ((d, names) # rest) result =
     (case join_names 0 names of
        Inl e \<Rightarrow> Inl e
      | Inr ss \<Rightarrow> birthday_lines rest (result @ d @ '': '' @ join '', '' ss @ [CHR 0x0A]))"

definition show_birthdays :: "date \<Rightarrow> AddressBook \<Rightarrow> outcome" where
  "show_birthdays today book = input_error
     (case get_birthdays_per_week today book of
        Inl e \<Rightarrow> (Inl e, book)
      | Inr birthdays_per_week \<Rightarrow>
          if birthdays_per_week \<noteq> []
          then (case birthday_lines birthdays_per_week (''Birthdays for the next week:'' @ [CHR 0x0A]) of
                  Inl e \<Rightarrow> (Inl e, book)
                | Inr result \<Rightarrow> (Inr (strip result), book))
          else (Inr ''No birthdays in the next week.'', book))"

section \<open>The command loop\<close>

text \<open>
  One turn of \<^verbatim>\<open>main\<close>'s loop on a line that \<^verbatim>\<open>input\<close> returned: the loop goes on
  with a printed reply, stops after \<^verbatim>\<open>Good bye!\<close>, or an exception leaves the loop and
  ends the process. \<^verbatim>\<open>command, *args = parse_input(user_input)\<close> unpacks the pair that
  \<^verbatim>\<open>parse_input\<close> returns, so \<open>args\<close> is the one-element list holding the token list.
\<close>

datatype step = Continue string AddressBook | Stop string | Crash error

definition printed :: "outcome \<Rightarrow> step" where
  "printed res = (case fst res of Inl e \<Rightarrow> Crash e | Inr reply \<Rightarrow> Continue reply (snd res))"

definition main_step :: "date \<Rightarrow> string \<Rightarrow> AddressBook \<Rightarrow> step" where
  "main_step today user_input book =
     (case parse_input user_input of
        Inl e \<Rightarrow> Crash e
      | Inr (command, tokens) \<Rightarrow>
          (let args = [StrList tokens] in
           if command = ''close'' \<or> command = ''exit'' then Stop ''Good bye!''
           else if command = ''hello'' then Continue ''How can I help you?'' book
           else if command = ''add'' then printed (add_contact args book)
           else if command = ''change'' then printed (change_contact args book)
           else if command = ''phone'' then printed (show_phone args book)
           else if command = ''all'' then printed (show_all book)
           else if command = ''add-birthday'' then printed (add_birthday args book)
           else if command = ''show-birthday'' then printed (show_birthday args book)
           else if command = ''birthdays'' then printed (show_birthdays today book)
           else Continue ''Invalid command.'' book))"

text \<open>The loop over the lines that \<^verbatim>\<open>input\<close> returns, each with the date of that
  moment: what is printed, and how the loop ends (\<open>None\<close> while it still waits for
  input).\<close>

fun main_loop :: "(date \<times> string) list \<Rightarrow> AddressBook \<Rightarrow> string list \<times> error option option" where
  "main_loop [] book = ([], None)"
| "main_loop ((today, user_input) # rest) book =
     (case main_step today user_input book of
        Crash e \<Rightarrow> ([], Some (Some e))
      | Stop reply \<Rightarrow> ([reply], Some None)
      | Continue reply book' \<Rightarrow> (case main_loop rest book' of (out, fin) \<Rightarrow> (reply # out, fin)))"

section \<open>Phone validation\<close>

lemma Phone_error:
  "Phone v = Inl e \<Longrightarrow> e = ValueError ''Invalid phone number format. Must be a string of 10 digits.''"
  by (auto simp: Phone_def split: pyval.splits if_splits)

text \<open>The parts of the validation that hold for every string: ten characters \<^verbatim>\<open>0\<close> to
  \<^verbatim>\<open>9\<close> are accepted, and a string of any other length is refused.\<close>

lemma Phone_accepts_decimal_digits:
  assumes "length s = 10" "list_all isdecimal_char s"
  shows "Phone (Str s) = Inr (Str s)"
proof -
  from assms(2) have "list_all isdigit_char s"
    by (auto simp: list_all_iff isdecimal_char_def isdigit_char_def)
  with assms(1) show ?thesis
    by (auto simp: Phone_def isdigit_def)
qed

lemma Phone_refuses_other_lengths:
  assumes "length s \<noteq> 10"
  shows "Phone (Str s) = Inl (ValueError ''Invalid phone number format. Must be a string of 10 digits.'')"
  using assms by (simp add: Phone_def)

text \<open>
  Claim C3, evaluated. The string made of the superscript one (U+00B9) and
  \<^verbatim>\<open>234567890\<close> has length 10 and its first character is none of \<^verbatim>\<open>0\<close> to \<^verbatim>\<open>9\<close>, so
  by the claim it is refused. \<^verbatim>\<open>Phone\<close> accepts it and \<^verbatim>\<open>add_contact\<close> stores it: the
  check is \<^verbatim>\<open>value.isdigit()\<close>, which holds for every character of Unicode numeric type
  Digit or Decimal and not only for the ten decimal digits of a phone number.
\<close>

theorem Phone_accepts_non_decimal_digit:
  "length (CHR 0xB9 # ''234567890'') = 10
   \<and> CHR 0xB9 \<notin> set ''0123456789''
   \<and> Phone (Str (CHR 0xB9 # ''234567890'')) = Inr (Str (CHR 0xB9 # ''234567890''))
   \<and> add_contact [Str ''John'', Str (CHR 0xB9 # ''234567890'')] [] =
       (Inr ''Contact added.'',
        [(''John'', \<lparr>name = Str ''John'', phones = [Str (CHR 0xB9 # ''234567890'')], birthday = None\<rparr>)])"
proof -
  have p: "Phone (Str (CHR 0xB9 # ''234567890'')) = Inr (Str (CHR 0xB9 # ''234567890''))"
    by (simp add: Phone_def isdigit_def isdigit_char_def ord_def)
  then have "add_contact [Str ''John'', Str (CHR 0xB9 # ''234567890'')] [] =
       (Inr ''Contact added.'',
        [(''John'', \<lparr>name = Str ''John'', phones = [Str (CHR 0xB9 # ''234567890'')], birthday = None\<rparr>)])"
    by (simp add: add_contact_def unpack2_def add_phone_def Record_init_def add_record_def input_error_def)
  with p show ?thesis
    by simp
qed

theorem Phone_accepts_non_decimal_digit_witness:
  "Phone (Str (CHR 0xB9 # ''234567890'')) = Inr (Str (CHR 0xB9 # ''234567890''))"
  using Phone_accepts_non_decimal_digit by blast

text \<open>
  Claim C9. When the phone argument of \<^verbatim>\<open>add_contact\<close> fails validation, the reply is
  the validation message and the address book is returned exactly as it was: no contact
  is created and an existing contact of that name keeps its phones and birthday.
\<close>

theorem add_contact_invalid_phone_leaves_book:
  assumes "Phone phone = Inl e"
  shows "add_contact [n, phone] book =
           (Inr ''Invalid phone number format. Must be a string of 10 digits.'', book)"
  using Phone_error [OF assms] assms
  by (simp add: add_contact_def unpack2_def add_phone_def input_error_def)

theorem add_contact_invalid_phone_leaves_book_witness:
  "Phone (Str ''12ab'') = Inl (ValueError ''Invalid phone number format. Must be a string of 10 digits.'')
   \<and> add_contact [Str ''John'', Str ''12ab'']
        [(''John'', \<lparr>name = Str ''John'', phones = [Str ''1234567890''], birthday = Some ''01.01.1990''\<rparr>)]
      = (Inr ''Invalid phone number format. Must be a string of 10 digits.'',
         [(''John'', \<lparr>name = Str ''John'', phones = [Str ''1234567890''], birthday = Some ''01.01.1990''\<rparr>)])"
proof -
  have h: "Phone (Str ''12ab'') = Inl (ValueError ''Invalid phone number format. Must be a string of 10 digits.'')"
    by (simp add: Phone_def isdigit_def)
  show ?thesis
    using h add_contact_invalid_phone_leaves_book [OF h] by simp
qed

section \<open>Replies of the handlers\<close>

text \<open>
  Claim C4, evaluated. \<^verbatim>\<open>add_contact\<close> stores a validated phone, and \<^verbatim>\<open>change_contact\<close>
  then overwrites it with the argument as given: after \<^verbatim>\<open>add John 1234567890\<close> and
  \<^verbatim>\<open>change John abc\<close> the reply is \<^verbatim>\<open>Contact updated.\<close> and the stored phone is
  \<^verbatim>\<open>abc\<close>, which is not a string of 10 digits.
\<close>

theorem change_stores_unvalidated_phone:
  "add_contact [Str ''John'', Str ''1234567890''] [] =
     (Inr ''Contact added.'', [(''John'', \<lparr>name = Str ''John'', phones = [Str ''1234567890''], birthday = None\<rparr>)])
   \<and> change_contact [Str ''John'', Str ''abc'']
        [(''John'', \<lparr>name = Str ''John'', phones = [Str ''1234567890''], birthday = None\<rparr>)] =
     (Inr ''Contact updated.'', [(''John'', \<lparr>name = Str ''John'', phones = [Str ''abc''], birthday = None\<rparr>)])"
  by code_simp

text \<open>
  Claim C6 as stated fails: for the absent name \<^verbatim>\<open>Unknown\<close> the reply of
  \<^verbatim>\<open>show_phone\<close> is \<^verbatim>\<open>Contact Unknown not found.\<close>, not \<^verbatim>\<open>Contact not found.\<close>
\<close>

theorem absent_contact_reply_counterexample:
  "find [] (Str ''Unknown'') = Inr None
   \<and> fst (show_phone [Str ''Unknown''] []) = Inr ''Contact Unknown not found.''
   \<and> fst (show_phone [Str ''Unknown''] []) \<noteq> Inr ''Contact not found.''"
  by (simp add: find_def show_phone_def item0_def input_error_def not_found_def)

text \<open>
  Claim C6, amended. For every name \<open>n\<close> that is absent from the address book, the
  handlers \<^verbatim>\<open>show_phone\<close>, \<^verbatim>\<open>show_birthday\<close>, \<^verbatim>\<open>change_contact\<close> and \<^verbatim>\<open>add_birthday\<close>,
  called with the tokens of the command, reply \<^verbatim>\<open>Contact <n> not found.\<close> with the name
  in it, leave the book as it is, and the reply is never the string
  \<^verbatim>\<open>Contact not found.\<close>
\<close>

theorem absent_contact_reply:
  assumes "map_of book n = None"
  shows "show_phone (Str n # rest) book = (Inr (''Contact '' @ n @ '' not found.''), book)
       \<and> show_birthday (Str n # rest) book = (Inr (''Contact '' @ n @ '' not found.''), book)
       \<and> change_contact [Str n, new_phone] book = (Inr (''Contact '' @ n @ '' not found.''), book)
       \<and> add_birthday [Str n, b] book = (Inr (''Contact '' @ n @ '' not found.''), book)
       \<and> ''Contact '' @ n @ '' not found.'' \<noteq> ''Contact not found.''"
proof -
  have 1: "show_phone (Str n # rest) book = (Inr (''Contact '' @ n @ '' not found.''), book)"
    using assms by (simp add: find_def show_phone_def item0_def input_error_def not_found_def)
  have 2: "show_birthday (Str n # rest) book = (Inr (''Contact '' @ n @ '' not found.''), book)"
    using assms by (simp add: find_def show_birthday_def item0_def input_error_def not_found_def)
  have 3: "change_contact [Str n, new_phone] book = (Inr (''Contact '' @ n @ '' not found.''), book)"
    using assms by (simp add: find_def change_contact_def unpack2_def input_error_def not_found_def)
  have 4: "add_birthday [Str n, b] book = (Inr (''Contact '' @ n @ '' not found.''), book)"
    using assms by (simp add: find_def add_birthday_def unpack2_def input_error_def not_found_def)
  have "length (''Contact '' @ n @ '' not found.'') \<noteq> length ''Contact not found.''"
    by simp
  then have 5: "''Contact '' @ n @ '' not found.'' \<noteq> ''Contact not found.''"
    by metis
  from 1 2 3 4 5 show ?thesis
    by blast
qed

theorem absent_contact_reply_witness:
  "map_of ([] :: AddressBook) ''Unknown'' = None
   \<and> show_phone [Str ''Unknown''] [] = (Inr ''Contact Unknown not found.'', [])
   \<and> change_contact [Str ''Unknown'', Str ''0987654321''] [] = (Inr ''Contact Unknown not found.'', [])
   \<and> add_birthday [Str ''Unknown'', Str ''01.01.1990''] [] = (Inr ''Contact Unknown not found.'', [])"
  using absent_contact_reply [of "[]" "''Unknown''" "[]" "Str ''0987654321''" "Str ''01.01.1990''"]
  by simp

text \<open>
  Claim C7, evaluated. \<^verbatim>\<open>add_contact\<close> called with the single token \<^verbatim>\<open>John\<close> fails in
  \<^verbatim>\<open>name, phone = args\<close> with a \<^verbatim>\<open>ValueError\<close>, so the reply is the interpreter's
  message and not \<^verbatim>\<open>Not enough arguments provided.\<close>; the same holds for
  \<^verbatim>\<open>change_contact\<close> and \<^verbatim>\<open>add_birthday\<close>. \<^verbatim>\<open>show_phone\<close> and \<^verbatim>\<open>show_birthday\<close> without
  a token fail in \<^verbatim>\<open>args[0]\<close> with an \<^verbatim>\<open>IndexError\<close> and do give that reply.
\<close>

theorem too_few_arguments_reply:
  "add_contact [Str ''John''] [] = (Inr ''not enough values to unpack (expected 2, got 1)'', [])
   \<and> change_contact [Str ''John''] [] = (Inr ''not enough values to unpack (expected 2, got 1)'', [])
   \<and> add_birthday [] [] = (Inr ''not enough values to unpack (expected 2, got 0)'', [])
   \<and> fst (add_contact [Str ''John''] []) \<noteq> Inr ''Not enough arguments provided.''
   \<and> show_phone [] [] = (Inr ''Not enough arguments provided.'', [])
   \<and> show_birthday [] [] = (Inr ''Not enough arguments provided.'', [])"
  by code_simp

section \<open>Exceptions that leave the command loop\<close>

text \<open>
  Claim C8, evaluated. On an empty line and on a line of blanks \<^verbatim>\<open>parse_input\<close> raises
  a \<^verbatim>\<open>ValueError\<close> in \<^verbatim>\<open>cmd, *args = user_input.split()\<close>; it is called outside every
  handler, so the exception leaves the loop. \<^verbatim>\<open>phone John\<close> leaves the loop as well:
  \<^verbatim>\<open>show_phone\<close> receives the token list wrapped in a list, looks the inner list up in
  the dict, and the \<^verbatim>\<open>TypeError\<close> is not one of the exceptions the decorator catches.
\<close>

theorem exception_leaves_loop:
  "main_step today '''' book = Crash (ValueError ''not enough values to unpack (expected at least 1, got 0)'')
   \<and> main_step today ''   '' book = Crash (ValueError ''not enough values to unpack (expected at least 1, got 0)'')
   \<and> main_step today ''phone John'' book = Crash unhashable
   \<and> main_loop [(today, ''hello''), (today, ''''), (today, ''hello'')] book =
        ([''How can I help you?''], Some (Some (ValueError ''not enough values to unpack (expected at least 1, got 0)'')))"
proof -
  have split1: "split '''' = []" "split ''   '' = []" "split ''phone John'' = [''phone'', ''John'']"
     "split ''hello'' = [''hello'']"
    by (simp_all add: split_def isspace_def ord_def)
  have low: "lower (strip ''phone'') = ''phone''" "lower (strip ''hello'') = ''hello''"
    by (simp_all add: lower_def strip_def isspace_def lower_char_def ord_def)
  have a: "main_step today '''' book = Crash (ValueError ''not enough values to unpack (expected at least 1, got 0)'')"
    by (simp add: main_step_def parse_input_def split1 unpack_star_def)
  have b: "main_step today ''   '' book = Crash (ValueError ''not enough values to unpack (expected at least 1, got 0)'')"
    by (simp add: main_step_def parse_input_def split1 unpack_star_def)
  have c: "main_step today ''phone John'' book = Crash unhashable"
    by (simp add: main_step_def parse_input_def split1 low unpack_star_def show_phone_def item0_def
        find_def input_error_def printed_def unhashable_def)
  have d: "main_step today ''hello'' book = Continue ''How can I help you?'' book"
    by (simp add: main_step_def parse_input_def split1 low unpack_star_def)
  show ?thesis
    by (simp add: a b c d)
qed

subsection \<open>What the command loop passes to the handlers\<close>

lemma str_of_nat_1: "str_of_nat (Suc 0) = ''1''"
  by code_simp

lemma unpack2_single:
  "unpack2 [x] = Inl (ValueError ''not enough values to unpack (expected 2, got 1)'')"
  by (simp add: unpack2_def str_of_nat_1)

text \<open>
  \<^verbatim>\<open>main\<close> hands every handler the one-element list \<^verbatim>\<open>[tokens]\<close>. So \<^verbatim>\<open>add\<close>,
  \<^verbatim>\<open>change\<close> and \<^verbatim>\<open>add-birthday\<close> always fail in their two-name unpacking, whatever
  the tokens are, and a turn of the loop never changes the address book.
\<close>

lemma main_step_add:
  assumes "parse_input user_input = Inr (''add'', tokens)"
  shows "main_step today user_input book =
           Continue ''not enough values to unpack (expected 2, got 1)'' book"
  using assms
  by (simp add: main_step_def add_contact_def unpack2_single input_error_def printed_def)

lemma main_step_keeps_book:
  assumes "main_step today user_input book = Continue reply book'"
  shows "book' = book"
proof -
  from assms obtain command tokens where p: "parse_input user_input = Inr (command, tokens)"
    by (cases "parse_input user_input") (auto simp: main_step_def)
  have 1: "snd (add_contact [StrList tokens] book) = book"
    by (simp add: add_contact_def unpack2_single input_error_def)
  have 2: "snd (change_contact [StrList tokens] book) = book"
    by (simp add: change_contact_def unpack2_single input_error_def)
  have 3: "snd (add_birthday [StrList tokens] book) = book"
    by (simp add: add_birthday_def unpack2_single input_error_def)
  have 4: "snd (show_phone [StrList tokens] book) = book"
    by (simp add: show_phone_def item0_def find_def input_error_def unhashable_def)
  have 5: "snd (show_birthday [StrList tokens] book) = book"
    by (simp add: show_birthday_def item0_def find_def input_error_def unhashable_def)
  have 6: "snd (show_all book) = book"
    by (simp add: show_all_def input_error_def)
  have 7: "snd (show_birthdays today book) = book"
    by (auto simp: show_birthdays_def input_error_def split: sum.splits error.splits)
  have k: "\<And>res. printed res = Continue reply book' \<Longrightarrow> book' = snd res"
    by (auto simp: printed_def split: sum.splits)
  from assms p show ?thesis
    by (auto simp: main_step_def Let_def 1 2 3 4 5 6 7 dest!: k split: if_splits)
qed

section \<open>Dates\<close>

lemma is_date_iff:
  "is_date d \<longleftrightarrow> 1 \<le> year d \<and> year d \<le> 9999 \<and> 1 \<le> month d \<and> month d \<le> 12
      \<and> 1 \<le> day d \<and> day d \<le> days_in_month (year d) (month d)"
  by (auto simp: is_date_def date_new_def)

lemma date_new_is_date: "date_new y m d = Inr x \<Longrightarrow> is_date x"
  by (auto simp: is_date_def date_new_def split: if_splits)

lemma date_new_fields:
  "date_new y m d = Inr x \<Longrightarrow> year x = y \<and> month x = m \<and> day x = d"
  by (auto simp: date_new_def split: if_splits)

lemma month_cases:
  "1 \<le> m \<Longrightarrow> m \<le> 12 \<Longrightarrow>
   (m::int) = 1 \<or> m = 2 \<or> m = 3 \<or> m = 4 \<or> m = 5 \<or> m = 6 \<or> m = 7 \<or> m = 8 \<or> m = 9 \<or> m = 10 \<or> m = 11 \<or> m = 12"
  by arith

lemma within_year:
  assumes "1 \<le> m" "m \<le> 12" "1 \<le> d" "d \<le> days_in_month y m"
  shows "1 \<le> days_before_month y m + d \<and> days_before_month y m + d \<le> 365 + (if is_leap y then 1 else 0)"
  using month_cases [OF assms(1,2)] assms(3,4)
  by (elim disjE) (auto simp add: days_before_month_def days_in_month_def split: if_splits)

lemma div_facts:
  fixes z :: int
  assumes "0 < k"
  shows "k * (z div k) \<le> z \<and> z < k * (z div k) + k"
proof -
  have "z = k * (z div k) + z mod k" by simp
  moreover have "0 \<le> z mod k" "z mod k < k" using assms by simp_all
  ultimately show ?thesis by linarith
qed

text \<open>The days before a year, by 400-year cycles.\<close>

lemma days_before_year_split:
  "\<exists>a b. y - 1 = 400 * a + b \<and> 0 \<le> b \<and> b < 400
       \<and> days_before_year y = 146097 * a + 365 * b + b div 4 - b div 100"
proof -
  define a where "a = (y - 1) div 400"
  define b where "b = (y - 1) mod 400"
  have z: "y - 1 = 400 * a + b" and b: "0 \<le> b" "b < 400"
    by (simp_all add: a_def b_def)
  have "(4 * (100 * a) + b) div 4 = 100 * a + b div 4"
    by (rule div_mult_self4) simp
  then have d4: "(400 * a + b) div 4 = 100 * a + b div 4" by simp
  have "(100 * (4 * a) + b) div 100 = 4 * a + b div 100"
    by (rule div_mult_self4) simp
  then have d100: "(400 * a + b) div 100 = 4 * a + b div 100" by simp
  have "(400 * a + b) div 400 = a + b div 400"
    by (rule div_mult_self4) simp
  with b have d400: "(400 * a + b) div 400 = a" by simp
  have "days_before_year y = 146097 * a + 365 * b + b div 4 - b div 100"
    unfolding days_before_year_def z d4 d100 d400 by simp
  with z b show ?thesis by blast
qed

lemma days_before_year_bounds:
  assumes "1 \<le> y" "y \<le> 9999"
  shows "0 \<le> days_before_year y \<and> days_before_year y \<le> 3651694"
proof -
  from days_before_year_split [of y] obtain a b where
    z: "y - 1 = 400 * a + b" and b: "0 \<le> b" "b < 400"
    and e: "days_before_year y = 146097 * a + 365 * b + b div 4 - b div 100"
    by blast
  have a: "0 \<le> a" "a \<le> 24"
    using assms z b by linarith+
  note q4 = div_facts [of 4 b] and q100 = div_facts [of 100 b]
  show ?thesis
  proof (cases "a = 24")
    case True
    with z assms have "b \<le> 398" by linarith
    with True e q4 q100 b show ?thesis by linarith
  next
    case False
    with a have "a \<le> 23" by linarith
    with e q4 q100 b a show ?thesis by linarith
  qed
qed

lemma days_before_year_below_9999:
  assumes "1 \<le> y" "y \<le> 9998"
  shows "days_before_year y \<le> 3651329"
proof -
  from days_before_year_split [of y] obtain a b where
    z: "y - 1 = 400 * a + b" and b: "0 \<le> b" "b < 400"
    and e: "days_before_year y = 146097 * a + 365 * b + b div 4 - b div 100"
    by blast
  have a: "0 \<le> a" "a \<le> 24"
    using assms z b by linarith+
  note q4 = div_facts [of 4 b] and q100 = div_facts [of 100 b]
  show ?thesis
  proof (cases "a = 24")
    case True
    with z assms have "b \<le> 397" by linarith
    with True e q4 q100 b show ?thesis by linarith
  next
    case False
    with a have "a \<le> 23" by linarith
    with e q4 q100 b a show ?thesis by linarith
  qed
qed

lemma not_leap_9999: "\<not> is_leap 9999"
  by (simp add: is_leap_def)

text \<open>Every date has an ordinal between 1 and \<^const>\<open>MAXORDINAL\<close>.\<close>

lemma toordinal_bounds:
  assumes "is_date d"
  shows "0 < toordinal d \<and> toordinal d \<le> MAXORDINAL"
proof -
  from assms have v: "1 \<le> year d" "year d \<le> 9999" "1 \<le> month d" "month d \<le> 12"
      "1 \<le> day d" "day d \<le> days_in_month (year d) (month d)"
    by (simp_all add: is_date_iff)
  note w = within_year [OF v(3,4,5,6)]
  note b = days_before_year_bounds [OF v(1,2)]
  show ?thesis
  proof (cases "year d = 9999")
    case True
    with w b not_leap_9999 show ?thesis
      by (simp add: toordinal_def MAXORDINAL_def)
  next
    case False
    with v have "year d \<le> 9998" by simp
    from days_before_year_below_9999 [OF v(1) this] w b show ?thesis
      by (auto simp: toordinal_def MAXORDINAL_def split: if_splits)
  qed
qed

lemma strptime_is_date:
  assumes "strptime s = Inr d"
  shows "is_date d"
proof -
  from assms obtain y m dd where "date_new y m dd = Inr d"
    by (auto simp: strptime_def split: option.splits if_splits)
  then show ?thesis
    by (rule date_new_is_date)
qed

lemma replace_year_is_date: "replace_year d y = Inr x \<Longrightarrow> is_date x"
  by (auto simp: replace_year_def dest: date_new_is_date)

lemma occurrence_is_date: "occurrence today bd = Inr occ \<Longrightarrow> is_date occ"
  by (auto simp: occurrence_def dest: replace_year_is_date split: sum.splits if_splits)

text \<open>The sum \<^verbatim>\<open>today + timedelta(days=delta_days)\<close> is the occurrence itself, so it never
  overflows.\<close>

lemma date_add_days_occurrence:
  assumes "is_date today" "is_date occ"
  shows "date_add_days today (toordinal occ - toordinal today) = Inr (toordinal occ)"
proof -
  from toordinal_bounds [OF assms(1)] toordinal_bounds [OF assms(2)]
  have "\<bar>toordinal occ - toordinal today\<bar> \<le> 999999999"
    and "0 < toordinal occ" and "toordinal occ \<le> MAXORDINAL"
    unfolding MAXORDINAL_def by linarith+
  then show ?thesis
    by (simp add: date_add_days_def)
qed
section \<open>Errors of the birthday loop\<close>

lemma replace_year_error:
  assumes "1 \<le> month d" "month d \<le> 12" "replace_year d y = Inl e"
  shows "(1 \<le> y \<and> y \<le> 9999 \<longrightarrow> e = day_out_of_range)
       \<and> (e = day_out_of_range \<or> e = year_out_of_range y)"
  using assms by (auto simp: replace_year_def date_new_def split: if_splits)

lemma occurrence_error:
  assumes today: "is_date today" and bd: "is_date bd" and e: "occurrence today bd = Inl e"
  shows "e = day_out_of_range \<or> e = year_out_of_range (year today + 1)"
proof (cases "replace_year bd (year today)")
  case (Inl e')
  with e have "e' = e" by (simp add: occurrence_def)
  with Inl replace_year_error [of bd "year today" e] today bd show ?thesis
    by (simp add: is_date_iff)
next
  case (Inr bty)
  then have "is_date bty" by (rule replace_year_is_date)
  then have m: "1 \<le> month bty" "month bty \<le> 12" by (simp_all add: is_date_iff)
  from Inr e have "replace_year bty (year today + 1) = Inl e"
    by (simp add: occurrence_def split: if_splits)
  from replace_year_error [OF m this] show ?thesis by simp
qed

lemma birthday_entry_error:
  assumes today: "is_date today"
    and parsed: "\<And>b. birthday r = Some b \<Longrightarrow> \<exists>d. strptime b = Inr d"
    and e: "birthday_entry today r = Inl e"
  shows "e = day_out_of_range \<or> e = year_out_of_range (year today + 1)"
proof -
  from e obtain b where b: "birthday r = Some b"
    by (auto simp: birthday_entry_def split: option.splits)
  from parsed [OF b] obtain bd where bd: "strptime b = Inr bd" by blast
  then have ibd: "is_date bd" by (rule strptime_is_date)
  show ?thesis
  proof (cases "occurrence today bd")
    case (Inl e')
    with e b bd have "e' = e" by (simp add: birthday_entry_def)
    with Inl occurrence_error [OF today ibd] show ?thesis by simp
  next
    case (Inr occ)
    then have "is_date occ" by (rule occurrence_is_date)
    from date_add_days_occurrence [OF today this] e b bd Inr show ?thesis
      by (simp add: birthday_entry_def Let_def split: if_splits)
  qed
qed

lemma leap_then_next_not:
  assumes "is_leap y"
  shows "\<not> is_leap (y + 1)"
proof
  assume "is_leap (y + 1)"
  with assms have "y mod 4 = 0" "(y + 1) mod 4 = 0"
    by (simp_all add: is_leap_def)
  then show False by presburger
qed

lemma feb29_entry_fails:
  assumes today: "is_date today"
    and b: "birthday r = Some b" and bd: "strptime b = Inr bd"
    and feb: "month bd = 2" "day bd = 29"
    and c: "\<not> is_leap (year today) \<or> date_less \<lparr>year = year today, month = 2, day = 29\<rparr> today"
  shows "\<exists>e. birthday_entry today r = Inl e"
proof -
  from today have y: "1 \<le> year today" "year today \<le> 9999" by (simp_all add: is_date_iff)
  have "\<exists>e. occurrence today bd = Inl e"
  proof (cases "is_leap (year today)")
    case False
    with y feb show ?thesis
      by (simp add: occurrence_def replace_year_def date_new_def days_in_month_def)
  next
    case True
    with c have less: "date_less \<lparr>year = year today, month = 2, day = 29\<rparr> today" by simp
    from True y feb have 1: "replace_year bd (year today) = Inr \<lparr>year = year today, month = 2, day = 29\<rparr>"
      by (simp add: replace_year_def date_new_def days_in_month_def)
    from leap_then_next_not [OF True] y
    have "\<exists>e. replace_year \<lparr>year = year today, month = 2, day = 29\<rparr> (year today + 1) = Inl e"
      by (simp add: replace_year_def date_new_def days_in_month_def)
    with 1 less show ?thesis
      by (simp add: occurrence_def)
  qed
  with b bd show ?thesis
    by (auto simp: birthday_entry_def)
qed

lemma birthdays_loop_error:
  assumes "is_date today"
    and "\<forall>r\<in>set rs. \<forall>b. birthday r = Some b \<longrightarrow> (\<exists>d. strptime b = Inr d)"
    and "birthdays_loop today rs acc = Inl e"
  shows "e = day_out_of_range \<or> e = year_out_of_range (year today + 1)"
  using assms(2,3)
proof (induction rs arbitrary: acc)
  case Nil
  then show ?case by simp
next
  case (Cons r rs)
  show ?case
  proof (cases "birthday_entry today r")
    case (Inl e')
    with Cons.prems(2) have "e' = e" by simp
    with Inl birthday_entry_error [OF assms(1), of r e] Cons.prems(1) show ?thesis
      by simp
  next
    case (Inr x)
    with Cons show ?thesis
      by (cases x) (auto split: prod.splits)
  qed
qed

lemma birthdays_loop_fails:
  assumes "r \<in> set rs" and "birthday_entry today r = Inl e0"
  shows "\<exists>e. birthdays_loop today rs acc = Inl e"
  using assms(1)
proof (induction rs arbitrary: acc)
  case Nil
  then show ?case by simp
next
  case (Cons x rs)
  show ?case
  proof (cases "birthday_entry today x")
    case (Inl e')
    then show ?thesis by simp
  next
    case (Inr y)
    with assms(2) have "x \<noteq> r" by auto
    with Cons.prems have "r \<in> set rs" by simp
    with Cons.IH Inr show ?thesis
      by (cases y) (auto split: prod.splits)
  qed
qed
section \<open>Groups of the birthday loop\<close>

lemma dd_get_dd_append:
  "dd_get (dd_append acc k v) k' = (if k' = k then dd_get acc k @ [v] else dd_get acc k')"
  by (induction acc) (auto simp: dd_get_def)


lemma birthday_entry_key:
  assumes "birthday_entry today r = Inr (Some (k, n))"
  shows "k \<noteq> ''Saturday'' \<and> k \<noteq> ''Sunday'' \<and> n = name r"
  using assms
  by (auto simp: birthday_entry_def Let_def split: option.splits sum.splits if_splits)

lemma birthday_entry_selected:
  assumes "birthday r = Some b" "strptime b = Inr bd" "occurrence today bd = Inr occ"
    and "toordinal occ - toordinal today < 7"
    and "birthday_entry today r = Inr x"
  shows "x = Some (if strftime_A (toordinal occ) = ''Saturday'' \<or> strftime_A (toordinal occ) = ''Sunday''
                   then ''Monday'' else strftime_A (toordinal occ), name r)"
proof -
  from assms obtain d where d: "date_add_days today (toordinal occ - toordinal today) = Inr d"
    by (auto simp: birthday_entry_def Let_def split: sum.splits)
  then have "d = toordinal occ"
    by (auto simp: date_add_days_def split: if_splits)
  with d assms show ?thesis
    by (auto simp: birthday_entry_def Let_def)
qed

lemma birthdays_loop_entry_ok:
  assumes "birthdays_loop today rs acc = Inr res" "r \<in> set rs"
  shows "\<exists>x. birthday_entry today r = Inr x"
proof (cases "birthday_entry today r")
  case (Inl e)
  from birthdays_loop_fails [OF assms(2) Inl, of acc] assms(1) show ?thesis by simp
next
  case (Inr x)
  then show ?thesis by blast
qed

lemma birthdays_loop_grows:
  "birthdays_loop today rs acc = Inr res \<Longrightarrow> set (dd_get acc k) \<subseteq> set (dd_get res k)"
proof (induction rs arbitrary: acc)
  case Nil
  then show ?case by simp
next
  case (Cons r rs)
  show ?case
  proof (cases "birthday_entry today r")
    case (Inl e)
    with Cons.prems show ?thesis by simp
  next
    case (Inr x)
    show ?thesis
    proof (cases x)
      case None
      with Inr Cons show ?thesis by simp
    next
      case (Some p)
      obtain k' n where p: "p = (k', n)" by (cases p)
      with Some Inr Cons.prems have "birthdays_loop today rs (dd_append acc k' n) = Inr res"
        by simp
      from Cons.IH [OF this] show ?thesis
        by (auto simp: dd_get_dd_append split: if_splits)
    qed
  qed
qed

lemma birthdays_loop_member:
  assumes "birthdays_loop today rs acc = Inr res" "r \<in> set rs"
    and "birthday_entry today r = Inr (Some (k, n))"
  shows "n \<in> set (dd_get res k)"
  using assms(1,2)
proof (induction rs arbitrary: acc)
  case Nil
  then show ?case by simp
next
  case (Cons x rs)
  from birthdays_loop_entry_ok [OF Cons.prems(1), of x] obtain y where y: "birthday_entry today x = Inr y"
    by auto
  show ?case
  proof (cases "x = r")
    case True
    from True assms(3) Cons.prems(1) have "birthdays_loop today rs (dd_append acc k n) = Inr res"
      by simp
    from birthdays_loop_grows [OF this, of k] show ?thesis
      by (auto simp: dd_get_dd_append)
  next
    case False
    with Cons.prems(2) have r: "r \<in> set rs" by simp
    show ?thesis
    proof (cases y)
      case None
      with y Cons.prems(1) have "birthdays_loop today rs acc = Inr res" by simp
      from Cons.IH [OF this r] show ?thesis .
    next
      case (Some p)
      obtain k' n' where "p = (k', n')" by (cases p)
      with Some y Cons.prems(1) have "birthdays_loop today rs (dd_append acc k' n') = Inr res"
        by simp
      from Cons.IH [OF this r] show ?thesis .
    qed
  qed
qed

section \<open>Upcoming birthdays\<close>




text \<open>
  Claim C10. Let the address book hold a contact whose birthday is 29 February, all
  stored birthdays being strings that \<^verbatim>\<open>Birthday\<close> accepted. If today's year is not a
  leap year, or it is one and 29 February of it is before today, then
  \<^verbatim>\<open>get_birthdays_per_week\<close> raises a \<^verbatim>\<open>ValueError\<close> of \<^verbatim>\<open>date.replace\<close>, and the reply
  of \<^verbatim>\<open>show_birthdays\<close> is that error's text: neither \<^verbatim>\<open>No birthdays in the next week.\<close>
  nor a listing.
\<close>

theorem leap_day_birthday_raises:
  assumes "is_date today"
    and "(k, r) \<in> set book" and "birthday r = Some b" and "strptime b = Inr bd"
    and "month bd = 2" and "day bd = 29"
    and "\<forall>(k', r') \<in> set book. \<forall>b'. birthday r' = Some b' \<longrightarrow> (\<exists>d. strptime b' = Inr d)"
    and "\<not> is_leap (year today) \<or> date_less \<lparr>year = year today, month = 2, day = 29\<rparr> today"
  shows "\<exists>msg. (ValueError msg = day_out_of_range \<or> ValueError msg = year_out_of_range (year today + 1))
            \<and> get_birthdays_per_week today book = Inl (ValueError msg)
            \<and> show_birthdays today book = (Inr msg, book)
            \<and> msg \<noteq> ''No birthdays in the next week.''
            \<and> take 28 msg \<noteq> ''Birthdays for the next week:''"
proof -
  let ?rs = "map snd book"
  from assms(2) have r: "r \<in> set ?rs" by force
  from feb29_entry_fails [OF assms(1,3,4,5,6,8)] obtain e0 where "birthday_entry today r = Inl e0"
    by blast
  from birthdays_loop_fails [OF r this] obtain e where e: "birthdays_loop today ?rs [] = Inl e"
    by blast
  from assms(7) have "\<forall>r\<in>set ?rs. \<forall>b. birthday r = Some b \<longrightarrow> (\<exists>d. strptime b = Inr d)"
    by auto
  from birthdays_loop_error [OF assms(1) this e]
  have kind: "e = day_out_of_range \<or> e = year_out_of_range (year today + 1)" .
  then obtain msg where msg: "e = ValueError msg"
    by (auto simp: day_out_of_range_def year_out_of_range_def)
  from e msg have g: "get_birthdays_per_week today book = Inl (ValueError msg)"
    by (simp add: get_birthdays_per_week_def)
  then have s: "show_birthdays today book = (Inr msg, book)"
    by (simp add: show_birthdays_def input_error_def)
  from kind msg have n: "msg \<noteq> ''No birthdays in the next week.'' \<and> take 28 msg \<noteq> ''Birthdays for the next week:''"
    by (auto simp: day_out_of_range_def year_out_of_range_def)
  from kind msg have k2: "ValueError msg = day_out_of_range \<or> ValueError msg = year_out_of_range (year today + 1)"
    by simp
  from k2 g s n show ?thesis
    by (intro exI [of _ msg]) simp
qed

theorem leap_day_birthday_raises_witness:
  "is_date \<lparr>year = 2025, month = 3, day = 1\<rparr>
   \<and> strptime ''29.02.2000'' = Inr \<lparr>year = 2000, month = 2, day = 29\<rparr>
   \<and> \<not> is_leap 2025
   \<and> (\<exists>msg. get_birthdays_per_week \<lparr>year = 2025, month = 3, day = 1\<rparr>
           [(''John'', \<lparr>name = Str ''John'', phones = [Str ''1234567890''], birthday = Some ''29.02.2000''\<rparr>)]
         = Inl (ValueError msg)
       \<and> show_birthdays \<lparr>year = 2025, month = 3, day = 1\<rparr>
           [(''John'', \<lparr>name = Str ''John'', phones = [Str ''1234567890''], birthday = Some ''29.02.2000''\<rparr>)]
         = (Inr msg, [(''John'', \<lparr>name = Str ''John'', phones = [Str ''1234567890''], birthday = Some ''29.02.2000''\<rparr>)]))"
proof -
  let ?today = "\<lparr>year = 2025, month = 3, day = 1\<rparr>"
  let ?john = "\<lparr>name = Str ''John'', phones = [Str ''1234567890''], birthday = Some ''29.02.2000''\<rparr>"
  let ?book = "[(''John'', ?john)]"
  have 1: "is_date ?today" by code_simp
  have 2: "(''John'', ?john) \<in> set ?book" by simp
  have 3: "birthday ?john = Some ''29.02.2000''" by simp
  have 4: "strptime ''29.02.2000'' = Inr \<lparr>year = 2000, month = 2, day = 29\<rparr>" by code_simp
  have 5: "month \<lparr>year = 2000, month = 2, day = 29\<rparr> = 2" "day \<lparr>year = 2000, month = 2, day = 29\<rparr> = 29"
    by simp_all
  have 6: "\<forall>(k', r') \<in> set ?book. \<forall>b'. birthday r' = Some b' \<longrightarrow> (\<exists>d. strptime b' = Inr d)"
    using 4 by simp
  have 7: "\<not> is_leap 2025" by code_simp
  then have 8: "\<not> is_leap (year ?today) \<or> date_less \<lparr>year = year ?today, month = 2, day = 29\<rparr> ?today"
    by simp
  from leap_day_birthday_raises [OF 1 2 3 4 5 6 8] 1 4 7 show ?thesis
    by blast
qed

section \<open>Changing a phone\<close>

lemma map_of_dict_set: "map_of (dict_set k v b) = (map_of b)(k \<mapsto> v)"
  by (induction b) auto

lemma keys_dict_set: "map_of b k = Some v0 \<Longrightarrow> map fst (dict_set k v b) = map fst b"
  by (induction b) (auto split: if_splits)

lemma change_contact_found:
  assumes "map_of book n = Some r" "phones r = old # rest"
  shows "change_contact [Str n, new_phone] book =
           (Inr ''Contact updated.'',
            dict_set n (r\<lparr>phones := new_phone # map (\<lambda>p. if p = old then new_phone else p) rest\<rparr>) book)"
  using assms
  by (simp add: change_contact_def unpack2_def find_def item0_def edit_phone_def input_error_def)

text \<open>
  Claim C5 as stated fails twice. For a contact without phones the reply of
  \<^verbatim>\<open>change_contact\<close> is \<^verbatim>\<open>Not enough arguments provided.\<close> (\<^verbatim>\<open>record.phones[0]\<close>
  raises an \<^verbatim>\<open>IndexError\<close>), not \<^verbatim>\<open>Contact updated.\<close>; and a later entry equal to the
  first phone is overwritten as well, here the third one.
\<close>

theorem change_first_phone_counterexample:
  "change_contact [Str ''Bob'', Str ''0987654321'']
      [(''Bob'', \<lparr>name = Str ''Bob'', phones = [], birthday = None\<rparr>)]
     = (Inr ''Not enough arguments provided.'', [(''Bob'', \<lparr>name = Str ''Bob'', phones = [], birthday = None\<rparr>)])
   \<and> change_contact [Str ''Bob'', Str ''0987654321'']
      [(''Bob'', \<lparr>name = Str ''Bob'', phones = [Str ''1111111111'', Str ''2222222222'', Str ''1111111111''], birthday = None\<rparr>)]
     = (Inr ''Contact updated.'',
        [(''Bob'', \<lparr>name = Str ''Bob'', phones = [Str ''0987654321'', Str ''2222222222'', Str ''0987654321''], birthday = None\<rparr>)])"
  by code_simp

text \<open>
  Claim C5, amended. For an existing contact with at least one phone,
  \<^verbatim>\<open>change_contact\<close> replies \<^verbatim>\<open>Contact updated.\<close> and overwrites the first stored phone
  and every later entry equal to it with the new phone; every other phone entry, the
  contact's name and birthday, every other contact and the order of the contacts stay
  as they were. When no later entry equals the first phone, exactly the first entry is
  replaced. For a contact without phones the address book is left as it was.
\<close>

theorem change_contact_replaces_first_phone:
  assumes "map_of book n = Some r"
  shows "(phones r = [] \<longrightarrow> snd (change_contact [Str n, new_phone] book) = book)
       \<and> (phones r = old # rest \<longrightarrow>
            fst (change_contact [Str n, new_phone] book) = Inr ''Contact updated.''
          \<and> map_of (snd (change_contact [Str n, new_phone] book)) n =
              Some (r\<lparr>phones := new_phone # map (\<lambda>p. if p = old then new_phone else p) rest\<rparr>)
          \<and> (old \<notin> set rest \<longrightarrow>
                map_of (snd (change_contact [Str n, new_phone] book)) n = Some (r\<lparr>phones := new_phone # rest\<rparr>))
          \<and> (\<forall>n'. n' \<noteq> n \<longrightarrow> map_of (snd (change_contact [Str n, new_phone] book)) n' = map_of book n')
          \<and> map fst (snd (change_contact [Str n, new_phone] book)) = map fst book)"
proof (intro conjI impI)
  assume "phones r = []"
  with assms show "snd (change_contact [Str n, new_phone] book) = book"
    by (simp add: change_contact_def unpack2_def find_def item0_def input_error_def)
next
  assume p: "phones r = old # rest"
  note c = change_contact_found [OF assms p, of new_phone]
  show "fst (change_contact [Str n, new_phone] book) = Inr ''Contact updated.''"
    by (simp add: c)
  show "map_of (snd (change_contact [Str n, new_phone] book)) n =
          Some (r\<lparr>phones := new_phone # map (\<lambda>p. if p = old then new_phone else p) rest\<rparr>)"
    by (simp add: c map_of_dict_set)
  show "\<forall>n'. n' \<noteq> n \<longrightarrow> map_of (snd (change_contact [Str n, new_phone] book)) n' = map_of book n'"
    by (simp add: c map_of_dict_set)
  show "map fst (snd (change_contact [Str n, new_phone] book)) = map fst book"
    using assms by (simp add: c keys_dict_set)
  assume "old \<notin> set rest"
  then have "map (\<lambda>p. if p = old then new_phone else p) rest = rest"
    by (induction rest) auto
  then show "map_of (snd (change_contact [Str n, new_phone] book)) n = Some (r\<lparr>phones := new_phone # rest\<rparr>)"
    by (simp add: c map_of_dict_set)
qed

theorem change_contact_replaces_first_phone_witness:
  "map_of [(''John'', \<lparr>name = Str ''John'', phones = [Str ''1234567890'', Str ''5555555555''], birthday = None\<rparr>)] ''John''
     = Some \<lparr>name = Str ''John'', phones = [Str ''1234567890'', Str ''5555555555''], birthday = None\<rparr>
   \<and> fst (change_contact [Str ''John'', Str ''0987654321'']
        [(''John'', \<lparr>name = Str ''John'', phones = [Str ''1234567890'', Str ''5555555555''], birthday = None\<rparr>)])
     = Inr ''Contact updated.''
   \<and> map_of (snd (change_contact [Str ''John'', Str ''0987654321'']
        [(''John'', \<lparr>name = Str ''John'', phones = [Str ''1234567890'', Str ''5555555555''], birthday = None\<rparr>)])) ''John''
     = Some \<lparr>name = Str ''John'', phones = [Str ''0987654321'', Str ''5555555555''], birthday = None\<rparr>"
proof -
  let ?r = "\<lparr>name = Str ''John'', phones = [Str ''1234567890'', Str ''5555555555''], birthday = None\<rparr>"
  have h: "map_of [(''John'', ?r)] ''John'' = Some ?r" by simp
  from change_contact_replaces_first_phone
    [OF h, of "Str ''0987654321''" "Str ''1234567890''" "[Str ''5555555555'']"] h
  show ?thesis by simp
qed

section \<open>Ordinals follow the order of dates\<close>

lemma div_step:
  fixes z :: int
  assumes "1 < k"
  shows "(z + 1) div k = z div k + (if (z + 1) mod k = 0 then 1 else 0)"
proof -
  have z: "z = k * (z div k) + z mod k" by simp
  have r: "0 \<le> z mod k" "z mod k < k" using assms by simp_all
  show ?thesis
  proof (cases "z mod k = k - 1")
    case True
    with z have "z + 1 = k * (z div k) + k" by linarith
    then have e: "z + 1 = k * (z div k + 1) + 0"
      by (simp add: distrib_left)
    from assms have "0 \<le> (0::int)" "0 < k" by simp_all
    from int_div_pos_eq [OF e this] int_mod_pos_eq [OF e this] show ?thesis by simp
  next
    case False
    with r have s: "0 \<le> z mod k + 1" "z mod k + 1 < k" by linarith+
    from z have e: "z + 1 = k * (z div k) + (z mod k + 1)" by linarith
    from r have "z mod k + 1 \<noteq> 0" by linarith
    with int_div_pos_eq [OF e s] int_mod_pos_eq [OF e s] show ?thesis by simp
  qed
qed

lemma leap_count:
  fixes y :: int
  shows "(if y mod 4 = 0 then 1 else 0) - (if y mod 100 = 0 then 1 else 0) + (if y mod 400 = 0 then 1 else 0)
       = (if is_leap y then 1 else (0::int))"
proof -
  have "(y mod 100) mod 4 = y mod 4" by (rule mod_mod_cancel) simp
  then have m1: "y mod 100 = 0 \<Longrightarrow> y mod 4 = 0" by simp
  have "(y mod 400) mod 100 = y mod 100" by (rule mod_mod_cancel) simp
  then have m2: "y mod 400 = 0 \<Longrightarrow> y mod 100 = 0" by simp
  show ?thesis
  proof (cases "y mod 400 = 0")
    case True
    with m2 have h: "y mod 100 = 0" by blast
    with m1 have "y mod 4 = 0" by blast
    with True h show ?thesis by (simp add: is_leap_def)
  next
    case c: False
    show ?thesis
    proof (cases "y mod 100 = 0")
      case True
      with m1 have "y mod 4 = 0" by blast
      with True c show ?thesis by (simp add: is_leap_def)
    next
      case False
      with c show ?thesis by (simp add: is_leap_def)
    qed
  qed
qed

lemma year_step:
  "days_before_year (y + 1) = days_before_year y + 365 + (if is_leap y then 1 else 0)"
proof -
  define A :: int where "A = (if y mod 4 = 0 then 1 else 0)"
  define B :: int where "B = (if y mod 100 = 0 then 1 else 0)"
  define C :: int where "C = (if y mod 400 = 0 then 1 else 0)"
  have d4: "y div 4 = (y - 1) div 4 + A"
    using div_step [of 4 "y - 1"] by (simp add: A_def)
  have d100: "y div 100 = (y - 1) div 100 + B"
    using div_step [of 100 "y - 1"] by (simp add: B_def)
  have d400: "y div 400 = (y - 1) div 400 + C"
    using div_step [of 400 "y - 1"] by (simp add: C_def)
  have leap: "A - B + C = (if is_leap y then 1 else 0)"
    unfolding A_def B_def C_def by (rule leap_count)
  have "days_before_year (y + 1) = y * 365 + y div 4 - y div 100 + y div 400"
    by (simp add: days_before_year_def)
  also have "\<dots> = days_before_year y + 365 + (A - B + C)"
    unfolding d4 d100 d400 days_before_year_def by (simp add: algebra_simps)
  finally show ?thesis
    by (simp only: leap)
qed

lemma year_gap:
  fixes y y' q q' u w :: int
  assumes "y + 1 \<le> y'" "0 \<le> u" "0 \<le> w" "y - 1 < 100 * q + 100" "100 * q' \<le> y' - 1"
  shows "(y - 1) * 365 - q \<le> (y' - 1) * 365 + u - q' + w"
proof -
  from assms(4) have "y \<le> 100 * q + 100" by simp
  with assms(5,1) have "100 * q' \<le> 100 * q + 100 + (y' - y) - 1" by simp
  with assms(1) have "100 * (q' - q) \<le> 100 * (365 * (y' - y))" by simp
  then have "q' - q \<le> 365 * (y' - y)" by simp
  with assms(2,3) show ?thesis by (simp add: algebra_simps)
qed

lemma days_before_year_mono:
  assumes "y \<le> y'"
  shows "days_before_year y \<le> days_before_year y'"
proof (cases "y = y'")
  case True
  then show ?thesis by simp
next
  case False
  with assms have s: "y + 1 \<le> y'" by simp
  from assms have l: "y - 1 \<le> y' - 1" by simp
  have "(y - 1) div 4 \<le> (y' - 1) div 4" by (rule zdiv_mono1 [OF l]) simp
  then have u: "0 \<le> (y' - 1) div 4 - (y - 1) div 4" by simp
  have "(y - 1) div 400 \<le> (y' - 1) div 400" by (rule zdiv_mono1 [OF l]) simp
  then have w: "0 \<le> (y' - 1) div 400 - (y - 1) div 400" by simp
  have b: "y - 1 < 100 * ((y - 1) div 100) + 100"
    using div_facts [of 100 "y - 1"] by simp
  have b': "100 * ((y' - 1) div 100) \<le> y' - 1"
    using div_facts [of 100 "y' - 1"] by simp
  from year_gap [OF s u w b b'] show ?thesis
    by (simp add: days_before_year_def algebra_simps)
qed

lemma later_year:
  assumes "y < y'"
  shows "days_before_year y + 365 + (if is_leap y then 1 else 0) \<le> days_before_year y'"
proof -
  from assms have "y + 1 \<le> y'" by simp
  from days_before_year_mono [OF this] show ?thesis
    by (simp add: year_step)
qed

lemma later_month:
  assumes "1 \<le> m" "m < m'" "m' \<le> 12"
  shows "days_before_month y m + days_in_month y m \<le> days_before_month y m'"
proof -
  from assms have "1 \<le> m'" "m \<le> 12" by simp_all
  from month_cases [OF assms(1) this(2)] month_cases [OF this(1) assms(3)] assms(2) show ?thesis
    by (elim disjE) (simp_all add: days_before_month_def days_in_month_def)
qed

text \<open>A date that is not before another has an ordinal that is not smaller.\<close>

lemma toordinal_mono:
  assumes a: "is_date a" and b: "is_date b" and n: "\<not> date_less a b"
  shows "toordinal b \<le> toordinal a"
proof -
  from a have va: "1 \<le> month a" "month a \<le> 12" "1 \<le> day a" "day a \<le> days_in_month (year a) (month a)"
    by (simp_all add: is_date_iff)
  from b have vb: "1 \<le> month b" "month b \<le> 12" "1 \<le> day b" "day b \<le> days_in_month (year b) (month b)"
    by (simp_all add: is_date_iff)
  note wa = within_year [OF va] and wb = within_year [OF vb]
  from n have "year b < year a \<or> (year b = year a \<and> month b < month a)
      \<or> (year b = year a \<and> month b = month a \<and> day b \<le> day a)"
    unfolding date_less_def by linarith
  then consider (year) "year b < year a"
    | (month) "year b = year a" "month b < month a"
    | (day) "year b = year a" "month b = month a" "day b \<le> day a"
    by blast
  then show ?thesis
  proof cases
    case year
    from later_year [OF year] wa wb show ?thesis
      by (simp add: toordinal_def)
  next
    case month
    from later_month [OF vb(1) month(2) va(2), of "year a"] month(1) va vb show ?thesis
      by (simp add: toordinal_def)
  next
    case day
    then show ?thesis by (simp add: toordinal_def)
  qed
qed

lemma occurrence_not_before:
  assumes today: "is_date today" and occ: "occurrence today bd = Inr occ"
  shows "0 \<le> toordinal occ - toordinal today"
proof -
  from occ have iocc: "is_date occ" by (rule occurrence_is_date)
  from occ obtain bty where bty: "replace_year bd (year today) = Inr bty"
    by (auto simp: occurrence_def split: sum.splits)
  have "\<not> date_less occ today"
  proof (cases "date_less bty today")
    case True
    with occ bty have "replace_year bty (year today + 1) = Inr occ"
      by (simp add: occurrence_def)
    then have "year occ = year today + 1"
      by (auto simp: replace_year_def dest: date_new_fields)
    then show ?thesis by (simp add: date_less_def)
  next
    case False
    with occ bty show ?thesis by (simp add: occurrence_def)
  qed
  from toordinal_mono [OF iocc today this] show ?thesis by simp
qed

section \<open>The seven-day window\<close>

lemma birthdays_loop_origin:
  assumes "birthdays_loop today rs acc = Inr res" "n \<in> set (dd_get res k)"
  shows "n \<in> set (dd_get acc k) \<or> (\<exists>r\<in>set rs. birthday_entry today r = Inr (Some (k, n)))"
  using assms
proof (induction rs arbitrary: acc)
  case Nil
  then show ?case by simp
next
  case (Cons x rs)
  from birthdays_loop_entry_ok [OF Cons.prems(1), of x] obtain y where y: "birthday_entry today x = Inr y"
    by auto
  show ?case
  proof (cases y)
    case None
    with y Cons.prems(1) have "birthdays_loop today rs acc = Inr res" by simp
    from Cons.IH [OF this Cons.prems(2)] show ?thesis by auto
  next
    case (Some p)
    obtain k' n' where p: "p = (k', n')" by (cases p)
    with Some y Cons.prems(1) have "birthdays_loop today rs (dd_append acc k' n') = Inr res"
      by simp
    from Cons.IH [OF this Cons.prems(2)] y Some p show ?thesis
      by (auto simp: dd_get_dd_append split: if_splits)
  qed
qed

lemma birthday_entry_window:
  assumes "birthday r = Some b" "strptime b = Inr bd" "occurrence today bd = Inr occ"
    and "birthday_entry today r = Inr (Some (k, n))"
  shows "toordinal occ - toordinal today < 7"
  using assms by (auto simp: birthday_entry_def Let_def split: if_splits)

text \<open>
  The rule of \<^verbatim>\<open>get_birthdays_per_week\<close> wherever it returns its mapping (no stored
  birthday makes \<^verbatim>\<open>replace\<close> raise): for a contact with a birthday the occurrence is
  computed and is not before today, and, names being those of distinct contacts, the
  contact is listed in some group exactly when the occurrence is less than 7 days ahead.
\<close>

lemma upcoming_birthdays_window:
  assumes today: "is_date today"
    and res: "get_birthdays_per_week today book = Inr res"
    and r: "(k, r) \<in> set book" and b: "birthday r = Some b" and bd: "strptime b = Inr bd"
    and names: "distinct (map name (map snd book))"
  shows "\<exists>occ. occurrence today bd = Inr occ \<and> 0 \<le> toordinal occ - toordinal today
           \<and> ((\<exists>d. name r \<in> set (dd_get res d)) \<longleftrightarrow> toordinal occ - toordinal today < 7)"
proof -
  let ?rs = "map snd book"
  from res have loop: "birthdays_loop today ?rs [] = Inr res"
    by (simp add: get_birthdays_per_week_def)
  from r have rin: "r \<in> set ?rs" by force
  from birthdays_loop_entry_ok [OF loop rin] obtain x where x: "birthday_entry today r = Inr x"
    by blast
  with b bd obtain occ where occ: "occurrence today bd = Inr occ"
    by (auto simp: birthday_entry_def split: sum.splits)
  note ge = occurrence_not_before [OF today occ]
  have "(\<exists>d. name r \<in> set (dd_get res d)) \<longleftrightarrow> toordinal occ - toordinal today < 7"
  proof
    assume "\<exists>d. name r \<in> set (dd_get res d)"
    then obtain d where "name r \<in> set (dd_get res d)" by blast
    from birthdays_loop_origin [OF loop this] obtain r' where
      r': "r' \<in> set ?rs" and e: "birthday_entry today r' = Inr (Some (d, name r))"
      by (auto simp: dd_get_def)
    from birthday_entry_key [OF e] have "name r' = name r" by simp
    moreover from names distinct_map [of name ?rs] have "inj_on name (set ?rs)" by blast
    ultimately have "r' = r" using r' rin by (auto dest: inj_onD)
    with e birthday_entry_window [OF b bd occ] show "toordinal occ - toordinal today < 7"
      by blast
  next
    assume "toordinal occ - toordinal today < 7"
    from birthday_entry_selected [OF b bd occ this x] x obtain key where
      "birthday_entry today r = Inr (Some (key, name r))" by simp
    from birthdays_loop_member [OF loop rin this] show "\<exists>d. name r \<in> set (dd_get res d)"
      by blast
  qed
  with occ ge show ?thesis by blast
qed

text \<open>
  Claim C1, evaluated. On 1 March 2025 Alice's birthday, 3 March, is two days ahead. With
  Alice alone in the book she is listed (under \<^verbatim>\<open>Monday\<close>); once the book also holds Bob,
  born on 29 February, \<^verbatim>\<open>replace(year=2025)\<close> raises a \<^verbatim>\<open>ValueError\<close> and no mapping is
  returned, so Alice is not included. The rollover example of the claim itself holds:
  for the birthday 01.01.1990 and today 31 December 2024 the contact is in the
  \<^verbatim>\<open>Wednesday\<close> group, one day ahead.
\<close>

theorem leap_day_birthday_breaks_window:
  "get_birthdays_per_week \<lparr>year = 2025, month = 3, day = 1\<rparr>
      [(''Alice'', \<lparr>name = Str ''Alice'', phones = [Str ''1234567890''], birthday = Some ''03.03.1990''\<rparr>)]
     = Inr [(''Monday'', [Str ''Alice''])]
   \<and> get_birthdays_per_week \<lparr>year = 2025, month = 3, day = 1\<rparr>
      [(''Alice'', \<lparr>name = Str ''Alice'', phones = [Str ''1234567890''], birthday = Some ''03.03.1990''\<rparr>),
       (''Bob'', \<lparr>name = Str ''Bob'', phones = [Str ''0987654321''], birthday = Some ''29.02.2000''\<rparr>)]
     = Inl (ValueError ''day is out of range for month'')
   \<and> Birthday (Str ''29.02.2000'') = Inr ''29.02.2000''
   \<and> get_birthdays_per_week \<lparr>year = 2024, month = 12, day = 31\<rparr>
      [(''John'', \<lparr>name = Str ''John'', phones = [Str ''1234567890''], birthday = Some ''01.01.1990''\<rparr>)]
     = Inr [(''Wednesday'', [Str ''John''])]
   \<and> toordinal \<lparr>year = 2025, month = 1, day = 1\<rparr> - toordinal \<lparr>year = 2024, month = 12, day = 31\<rparr> = 1"
  by code_simp

end
